theory Spec2Isabelle
  imports Main "HOL-Library.Word"
begin

section \<open>The platform the wrapper talks to\<close>

text \<open>
  \<^verbatim>\<open>WiFiEnterprise.cpp\<close> is a sequence of calls into the Arduino WiFi object, the ESP-IDF
  WPA2-Enterprise functions, the millisecond clock and the serial port. None of these is
  part of the library, so the platform is a parameter of every operation below, and
  every call made into it is recorded, in order, in the state.

  The library ignores what the driver operations return (\<^verbatim>\<open>WiFi.begin\<close>, the
  \<^verbatim>\<open>esp_wifi_sta_wpa2_ent_*\<close> functions), so the model gives them no result. The
  \<^verbatim>\<open>const char*\<close> arguments are taken to point to readable bytes; a null pointer is
  outside the model.
\<close>

text \<open>
  Modelled from the spec: the platform's connection status enumeration \<^verbatim>\<open>wl_status_t\<close>
  (declared in the Arduino core's WiFi headers, which the library only includes). The
  library compares a status with \<^verbatim>\<open>WL_CONNECTED\<close> and nothing else.
\<close>

datatype wl_status_t =
    WL_NO_SHIELD
  | WL_IDLE_STATUS
  | WL_NO_SSID_AVAIL
  | WL_SCAN_COMPLETED
  | WL_CONNECTED
  | WL_CONNECT_FAILED
  | WL_CONNECTION_LOST
  | WL_DISCONNECTED

text \<open>
  Modelled from the spec: the radio modes of the platform's mode-select operation; the
  library only ever selects \<^verbatim>\<open>WIFI_STA\<close>.
\<close>

datatype wifi_mode_t = WIFI_OFF | WIFI_STA | WIFI_AP | WIFI_AP_STA

type_synonym IPAddress = "32 word"

text \<open>
  One constructor per platform call the library makes. A query carries the value the
  platform answered. The three EAP setters carry the buffer they were handed and the
  length passed beside it. \<open>Delay\<close> is the blocking sleep.
\<close>

datatype call =
    Disconnect bool
  | Delay "32 word"
  | Mode wifi_mode_t
  | Set_identity string nat
  | Set_username string nat
  | Set_password string nat
  | Ent_enable
  | Begin string
  | Status wl_status_t
  | LocalIP IPAddress
  | Ent_disable

text \<open>
  A platform over driver states \<open>'d\<close>: how the driver state moves at each call
  (\<open>react\<close>, which also sees the sleeps and the queries, so a driver may change between
  two reads of its status), what its status register and its address register show in
  a state, and the two text conversions of the Arduino core that \<open>begin\<close> uses for its
  diagnostic lines (\<^verbatim>\<open>IPAddress::toString\<close> and \<^verbatim>\<open>String(int)\<close> on a status).
\<close>

record 'd platform =
  react :: "call \<Rightarrow> 'd \<Rightarrow> 'd"
  status_reg :: "'d \<Rightarrow> wl_status_t"
  address_reg :: "'d \<Rightarrow> IPAddress"
  ip_toString :: "IPAddress \<Rightarrow> string"
  String_of_status :: "wl_status_t \<Rightarrow> string"

section \<open>The wrapper object and the world around it\<close>

text \<open>The two private fields of \<^verbatim>\<open>WiFiEnterpriseClass\<close>, both initialised to false.\<close>

record WiFiEnterpriseClass =
  debugEnabled :: bool
  connected :: bool

datatype serial_op = Serial_print string | Serial_println string

text \<open>
  The state threaded through every operation: the wrapper object, the millisecond
  clock (\<^verbatim>\<open>unsigned long\<close>, 32 bits on the ESP32, wrapping), the driver state, the
  platform calls made so far and the text written to the serial port so far.
\<close>

record 'd world =
  self :: WiFiEnterpriseClass
  clock :: "32 word"
  drv :: 'd
  calls :: "call list"
  serial :: "serial_op list"

definition issue :: "'d platform \<Rightarrow> call \<Rightarrow> 'd world \<Rightarrow> 'd world" where
  "issue P c w = w\<lparr>drv := react P c (drv w), calls := calls w @ [c]\<rparr>"

text \<open>
  \<^verbatim>\<open>delay(ms)\<close> advances the clock by \<open>ms\<close>; the driver sees the time pass. The other
  calls take no time on this clock.
\<close>

definition delay :: "'d platform \<Rightarrow> 32 word \<Rightarrow> 'd world \<Rightarrow> 'd world" where
  "delay P ms w = issue P (Delay ms) (w\<lparr>clock := clock w + ms\<rparr>)"

definition millis :: "'d world \<Rightarrow> 32 word" where
  "millis w = clock w"

definition WiFi_status :: "'d platform \<Rightarrow> 'd world \<Rightarrow> wl_status_t \<times> 'd world" where
  "WiFi_status P w = (status_reg P (drv w), issue P (Status (status_reg P (drv w))) w)"

definition WiFi_localIP :: "'d platform \<Rightarrow> 'd world \<Rightarrow> IPAddress \<times> 'd world" where
  "WiFi_localIP P w = (address_reg P (drv w), issue P (LocalIP (address_reg P (drv w))) w)"

text \<open>
  \<^verbatim>\<open>strlen\<close>: the number of bytes before the first NUL. A \<^verbatim>\<open>const char*\<close> argument is the
  byte sequence it points to.
\<close>

definition strlen :: "string \<Rightarrow> nat" where
  "strlen s = length (takeWhile (\<lambda>c. c \<noteq> CHR 0x00) s)"

text \<open>
  The value of a C string: its bytes up to the first NUL. This is what
  \<^verbatim>\<open>Serial.print(const char*)\<close> and \<^verbatim>\<open>Serial.println(const char*)\<close> write.
\<close>

definition c_str :: "string \<Rightarrow> string" where
  "c_str s = takeWhile (\<lambda>c. c \<noteq> CHR 0x00) s"

section \<open>The library\<close>

definition setDebug :: "bool \<Rightarrow> 'd world \<Rightarrow> 'd world" where
  "setDebug enable w = w\<lparr>self := (self w)\<lparr>debugEnabled := enable\<rparr>\<rparr>"

text \<open>The two overloads of \<^verbatim>\<open>debugPrint\<close>.\<close>

definition debugPrint :: "string \<Rightarrow> 'd world \<Rightarrow> 'd world" where
  "debugPrint message w =
     (if debugEnabled (self w)
      then w\<lparr>serial := serial w @ [Serial_println (c_str message)]\<rparr>
      else w)"

definition debugPrint2 :: "string \<Rightarrow> string \<Rightarrow> 'd world \<Rightarrow> 'd world" where
  "debugPrint2 message v w =
     (if debugEnabled (self w)
      then w\<lparr>serial := serial w @ [Serial_print (c_str message), Serial_println (c_str v)]\<rparr>
      else w)"

text \<open>Lines 7 to 33 of \<^verbatim>\<open>begin\<close>: the debug flag, then the configuration of the driver.\<close>

definition begin_configure ::
  "'d platform \<Rightarrow> string \<Rightarrow> string \<Rightarrow> string \<Rightarrow> bool \<Rightarrow> 'd world \<Rightarrow> 'd world" where
  "begin_configure P ssid username password enableDebug w0 =
     (let w1 = setDebug enableDebug w0;
          w2 = debugPrint ''WiFiEnterprise: Starting connection to WPA2-Enterprise network'' w1;
          w3 = debugPrint2 ''SSID: '' ssid w2;
          w4 = debugPrint2 ''Username: '' username w3;
          w5 = issue P (Disconnect True) w4;
          w6 = delay P 1000 w5;
          w7 = issue P (Mode WIFI_STA) w6;
          w8 = debugPrint ''WiFiEnterprise: Configuring WPA2-Enterprise settings'' w7;
          w9 = issue P (Set_identity username (strlen username)) w8;
          w10 = issue P (Set_username username (strlen username)) w9;
          w11 = issue P (Set_password password (strlen password)) w10;
          w12 = issue P Ent_enable w11;
          w13 = debugPrint ''WiFiEnterprise: Attempting to connect...'' w12
      in issue P (Begin ssid) w13)"

definition timeout :: "32 word" where
  "timeout = 20000"

text \<open>Lines 40 to 43, the body of the polling loop.\<close>

definition wait_round :: "'d platform \<Rightarrow> 'd world \<Rightarrow> 'd world" where
  "wait_round P w =
     (let w1 = delay P 500 w in
      if debugEnabled (self w1)
      then w1\<lparr>serial := serial w1 @ [Serial_print (c_str ''.'')]\<rparr>
      else w1)"

text \<open>
  Lines 39 to 44, the polling loop. The status is read first; the clock is compared
  only when the status is not \<^verbatim>\<open>WL_CONNECTED\<close>.
\<close>

function begin_wait :: "'d platform \<Rightarrow> 32 word \<Rightarrow> 'd world \<Rightarrow> 'd world" where
  "begin_wait P startTime w =
     (let r = WiFi_status P w in
      if fst r \<noteq> WL_CONNECTED \<and> millis (snd r) - startTime < timeout
      then begin_wait P startTime (wait_round P (snd r))
      else snd r)"
  by pat_completeness auto

text \<open>
  Lines 46 to 59: the status is read again, and that read decides the result. The
  arguments of the two-argument \<^verbatim>\<open>debugPrint\<close> calls are evaluated before the call, so
  the address query and the second status query are made whether or not the debug flag
  is set.
\<close>

definition begin_report :: "'d platform \<Rightarrow> 'd world \<Rightarrow> bool \<times> 'd world" where
  "begin_report P w =
     (let r = WiFi_status P w in
      if fst r = WL_CONNECTED
      then
        (let w1 = (snd r)\<lparr>self := (self (snd r))\<lparr>connected := True\<rparr>\<rparr>;
             w2 = debugPrint (CHR 0x0A # ''WiFiEnterprise: Connected successfully!'') w1;
             a = WiFi_localIP P w2;
             w3 = debugPrint2 ''IP Address: '' (ip_toString P (fst a)) (snd a)
         in (True, w3))
      else
        (let w1 = (snd r)\<lparr>self := (self (snd r))\<lparr>connected := False\<rparr>\<rparr>;
             w2 = debugPrint (CHR 0x0A # ''WiFiEnterprise: Connection failed!'') w1;
             s = WiFi_status P w2;
             w3 = debugPrint2 ''Status: '' (String_of_status P (fst s)) (snd s);
             w4 = issue P Ent_disable w3
         in (False, w4)))"

text \<open>\<^verbatim>\<open>WiFiEnterpriseClass::begin\<close>.\<close>

definition WiFiEnterprise_begin ::
  "'d platform \<Rightarrow> string \<Rightarrow> string \<Rightarrow> string \<Rightarrow> bool \<Rightarrow> 'd world \<Rightarrow> bool \<times> 'd world" where
  "WiFiEnterprise_begin P ssid username password enableDebug w =
     (let w1 = begin_configure P ssid username password enableDebug w;
          startTime = millis w1
      in begin_report P (begin_wait P startTime w1))"

text \<open>The call with three arguments: the header gives \<^verbatim>\<open>enableDebug\<close> the default false.\<close>

definition WiFiEnterprise_begin_default ::
  "'d platform \<Rightarrow> string \<Rightarrow> string \<Rightarrow> string \<Rightarrow> 'd world \<Rightarrow> bool \<times> 'd world" where
  "WiFiEnterprise_begin_default P ssid username password w =
     WiFiEnterprise_begin P ssid username password False w"

text \<open>The world at line 45, when the polling loop has ended.\<close>

definition after_wait ::
  "'d platform \<Rightarrow> string \<Rightarrow> string \<Rightarrow> string \<Rightarrow> bool \<Rightarrow> 'd world \<Rightarrow> 'd world" where
  "after_wait P ssid username password enableDebug w =
     (let w1 = begin_configure P ssid username password enableDebug w
      in begin_wait P (millis w1) w1)"

text \<open>
  The world at the poll number \<open>k\<close> of a loop entered in the world \<open>w\<close>, when none of the
  polls before it has ended the loop: \<open>k\<close> times a status read (line 39) and the loop body
  (lines 40 to 43). \<open>poll_reading\<close> is what the status register shows to that poll.
\<close>

fun nth_poll :: "'d platform \<Rightarrow> nat \<Rightarrow> 'd world \<Rightarrow> 'd world" where
  "nth_poll P 0 w = w"
| "nth_poll P (Suc k) w = nth_poll P k (wait_round P (snd (WiFi_status P w)))"

definition poll_reading :: "'d platform \<Rightarrow> 'd world \<Rightarrow> nat \<Rightarrow> wl_status_t" where
  "poll_reading P w k = status_reg P (drv (nth_poll P k w))"

text \<open>\<^verbatim>\<open>WiFiEnterpriseClass::end\<close>.\<close>

definition WiFiEnterprise_end :: "'d platform \<Rightarrow> 'd world \<Rightarrow> 'd world" where
  "WiFiEnterprise_end P w =
     (let w1 = debugPrint ''WiFiEnterprise: Disconnecting...'' w;
          w2 = issue P Ent_disable w1;
          w3 = issue P (Disconnect True) w2;
          w4 = w3\<lparr>self := (self w3)\<lparr>connected := False\<rparr>\<rparr>
      in debugPrint ''WiFiEnterprise: Disconnected'' w4)"

definition isConnected :: "'d platform \<Rightarrow> 'd world \<Rightarrow> bool \<times> 'd world" where
  "isConnected P w = (let r = WiFi_status P w in (fst r = WL_CONNECTED, snd r))"

definition status :: "'d platform \<Rightarrow> 'd world \<Rightarrow> wl_status_t \<times> 'd world" where
  "status P w = WiFi_status P w"

definition localIP :: "'d platform \<Rightarrow> 'd world \<Rightarrow> IPAddress \<times> 'd world" where
  "localIP P w = WiFi_localIP P w"

section \<open>Reading the record of calls\<close>

text \<open>The calls made between an earlier world and a later one.\<close>

definition new_calls :: "'d world \<Rightarrow> 'd world \<Rightarrow> call list" where
  "new_calls w w' = drop (length (calls w)) (calls w')"

text \<open>The driver operations that configure and start an association attempt.\<close>

fun is_setup :: "call \<Rightarrow> bool" where
  "is_setup (Disconnect b) = True"
| "is_setup (Mode m) = True"
| "is_setup (Set_identity b n) = True"
| "is_setup (Set_username b n) = True"
| "is_setup (Set_password b n) = True"
| "is_setup Ent_enable = True"
| "is_setup (Begin s) = True"
| "is_setup (Delay ms) = False"
| "is_setup (Status s) = False"
| "is_setup (LocalIP a) = False"
| "is_setup Ent_disable = False"

fun is_delay :: "call \<Rightarrow> bool" where
  "is_delay (Delay ms) = True"
| "is_delay c = False"

fun is_identity :: "call \<Rightarrow> bool" where
  "is_identity (Set_identity b n) = True"
| "is_identity c = False"

fun is_username :: "call \<Rightarrow> bool" where
  "is_username (Set_username b n) = True"
| "is_username c = False"

text \<open>
  The bytes an EAP setter programs: the first \<open>n\<close> bytes of the buffer it is handed.
  Other calls program none.
\<close>

fun eap_bytes :: "call \<Rightarrow> string" where
  "eap_bytes (Set_identity b n) = take n b"
| "eap_bytes (Set_username b n) = take n b"
| "eap_bytes (Set_password b n) = take n b"
| "eap_bytes c = []"

text \<open>The calls of lines 14 to 33, in the order of the source.\<close>

definition configure_calls :: "string \<Rightarrow> string \<Rightarrow> string \<Rightarrow> call list" where
  "configure_calls ssid username password =
     [Disconnect True, Delay 1000, Mode WIFI_STA,
      Set_identity username (strlen username), Set_username username (strlen username),
      Set_password password (strlen password), Ent_enable, Begin ssid]"

text \<open>The calls of polling rounds that read the statuses \<open>sts\<close> and slept after each.\<close>

definition polls :: "wl_status_t list \<Rightarrow> call list" where
  "polls sts = concat (map (\<lambda>s. [Status s, Delay 500]) sts)"

text \<open>
  What a run does apart from its diagnostics: the cached \<open>connected\<close> field, the clock,
  the driver state and the platform calls made. The debug flag and the serial text are
  left out.
\<close>

definition behaviour :: "'d world \<Rightarrow> bool \<times> 32 word \<times> 'd \<times> call list" where
  "behaviour w = (connected (self w), clock w, drv w, calls w)"

text \<open>
  Modelled from the spec: the part of the driver's own state that the commands set,
  which is platform code and not in the library. The enterprise-mode flag follows the
  enable and disable operations; the association is requested by the
  association-initiate operation and dropped by the force-disconnect operation. The
  other calls leave both alone.
\<close>

record driver_cfg =
  enterprise :: bool
  associating :: bool

fun command :: "call \<Rightarrow> driver_cfg \<Rightarrow> driver_cfg" where
  "command Ent_enable g = g\<lparr>enterprise := True\<rparr>"
| "command Ent_disable g = g\<lparr>enterprise := False\<rparr>"
| "command (Begin s) g = g\<lparr>associating := True\<rparr>"
| "command (Disconnect b) g = g\<lparr>associating := False\<rparr>"
| "command c g = g"

definition commanded :: "driver_cfg \<Rightarrow> call list \<Rightarrow> driver_cfg" where
  "commanded g cs = fold command cs g"

text \<open>The milliseconds the clock has advanced since \<open>startTime\<close>, as line 39 computes them.\<close>

definition elapsed :: "32 word \<Rightarrow> 'd world \<Rightarrow> nat" where
  "elapsed startTime w = unat (millis w - startTime)"

section \<open>A scripted driver\<close>

text \<open>The decimal text of a status code, as \<^verbatim>\<open>String(int)\<close> prints the platform's enum.\<close>

fun status_text :: "wl_status_t \<Rightarrow> string" where
  "status_text WL_NO_SHIELD = ''255''"
| "status_text WL_IDLE_STATUS = ''0''"
| "status_text WL_NO_SSID_AVAIL = ''1''"
| "status_text WL_SCAN_COMPLETED = ''2''"
| "status_text WL_CONNECTED = ''3''"
| "status_text WL_CONNECT_FAILED = ''4''"
| "status_text WL_CONNECTION_LOST = ''5''"
| "status_text WL_DISCONNECTED = ''6''"

text \<open>
  The fake driver of the spec's test plan: its state is the list of statuses its
  register will show at the coming reads. Each read uses up one entry, the last entry
  stays. Its address register holds 192.168.1.23.
\<close>

definition scripted :: "wl_status_t list platform" where
  "scripted =
     \<lparr>react = (\<lambda>c d. case c of Status s \<Rightarrow> (if 1 < length d then tl d else d) | _ \<Rightarrow> d),
      status_reg = (\<lambda>d. case d of [] \<Rightarrow> WL_IDLE_STATUS | s # _ \<Rightarrow> s),
      address_reg = (\<lambda>d. 0xC0A80117),
      ip_toString = (\<lambda>a. ''192.168.1.23''),
      String_of_status = status_text\<rparr>"

text \<open>
  A second fake driver, whose status register depends on time only: its state is the
  number of milliseconds left until it is connected, and only sleeping moves it.
  Reading its status changes nothing.
\<close>

definition timed :: "32 word platform" where
  "timed =
     \<lparr>react = (\<lambda>c d. case c of Delay ms \<Rightarrow> (if d < ms then 0 else d - ms) | _ \<Rightarrow> d),
      status_reg = (\<lambda>d. if d = 0 then WL_CONNECTED else WL_DISCONNECTED),
      address_reg = (\<lambda>d. if d = 0 then 0xC0A80117 else 0),
      ip_toString = (\<lambda>a. if a = 0 then ''0.0.0.0'' else ''192.168.1.23''),
      String_of_status = status_text\<rparr>"

text \<open>The world after reset: both fields false, nothing called, nothing printed.\<close>

definition boot :: "'d \<Rightarrow> 'd world" where
  "boot d = \<lparr>self = \<lparr>debugEnabled = False, connected = False\<rparr>, clock = 0, drv = d,
             calls = [], serial = []\<rparr>"

section \<open>Termination of the polling loop\<close>

lemma clock_issue: "clock (issue P c w) = clock w"
  by (simp add: issue_def)

lemma clock_delay: "clock (delay P ms w) = clock w + ms"
  by (simp add: delay_def clock_issue)

lemma clock_wait_round: "clock (wait_round P w) = clock w + 500"
  by (simp add: wait_round_def Let_def clock_delay)

lemma clock_WiFi_status: "clock (snd (WiFi_status P w)) = clock w"
  by (simp add: WiFi_status_def clock_issue)

lemma elapsed_step:
  fixes x :: "32 word"
  assumes "x < timeout"
  shows "unat (x + 500) = unat x + 500"
proof -
  have "unat x < 20000"
    using assms by (simp add: timeout_def word_less_nat_alt)
  then have "unat x + unat (500 :: 32 word) < 2 ^ LENGTH(32)"
    by simp
  then show ?thesis
    by (simp add: unat_add_lem [THEN iffD1])
qed

lemma elapsed_delay:
  fixes c s :: "32 word"
  assumes "c - s < timeout"
  shows "unat (c + 500 - s) = unat (c - s) + 500"
proof -
  have e: "c + 500 - s = (c - s) + 500"
    by simp
  show ?thesis
    unfolding e by (rule elapsed_step [OF assms])
qed

text \<open>
  The loop ends: each round adds 500 to the time elapsed since \<open>startTime\<close>, and a round
  is entered only while fewer than 20000 have elapsed, far from the wrap of the clock.
\<close>

termination begin_wait
proof (relation "measure (\<lambda>(P, startTime, w). 20000 - unat (clock w - startTime))")
  show "wf (measure (\<lambda>(P, startTime, w). 20000 - unat (clock w - startTime)))"
    by simp
next
  fix P :: "'d platform" and startTime :: "32 word" and w :: "'d world" and r
  assume r: "r = WiFi_status P w"
    and c: "fst r \<noteq> WL_CONNECTED \<and> millis (snd r) - startTime < timeout"
  from c r have lt: "clock w - startTime < timeout"
    by (simp add: millis_def clock_WiFi_status)
  then have "unat (clock w - startTime) < 20000"
    by (simp add: timeout_def word_less_nat_alt)
  moreover note elapsed_delay [OF lt]
  ultimately show "((P, startTime, wait_round P (snd r)), P, startTime, w)
      \<in> measure (\<lambda>(P, startTime, w). 20000 - unat (clock w - startTime))"
    using r by (simp add: clock_wait_round clock_WiFi_status)
qed

declare begin_wait.simps [simp del]

section \<open>What each step leaves alone\<close>

lemma issue_simps [simp]:
  "self (issue P c w) = self w"
  "calls (issue P c w) = calls w @ [c]"
  "serial (issue P c w) = serial w"
  "drv (issue P c w) = react P c (drv w)"
  by (simp_all add: issue_def)

lemma delay_simps [simp]:
  "self (delay P ms w) = self w"
  "calls (delay P ms w) = calls w @ [Delay ms]"
  "serial (delay P ms w) = serial w"
  "drv (delay P ms w) = react P (Delay ms) (drv w)"
  by (simp_all add: delay_def)

lemma debugPrint_simps [simp]:
  "self (debugPrint m w) = self w"
  "calls (debugPrint m w) = calls w"
  "clock (debugPrint m w) = clock w"
  "drv (debugPrint m w) = drv w"
  by (simp_all add: debugPrint_def)

lemma debugPrint2_simps [simp]:
  "self (debugPrint2 m v w) = self w"
  "calls (debugPrint2 m v w) = calls w"
  "clock (debugPrint2 m v w) = clock w"
  "drv (debugPrint2 m v w) = drv w"
  by (simp_all add: debugPrint2_def)

lemma debugPrint_quiet [simp]:
  "\<not> debugEnabled (self w) \<Longrightarrow> debugPrint m w = w"
  "\<not> debugEnabled (self w) \<Longrightarrow> debugPrint2 m v w = w"
  by (simp_all add: debugPrint_def debugPrint2_def)

lemma WiFi_status_simps [simp]:
  "fst (WiFi_status P w) = status_reg P (drv w)"
  "snd (WiFi_status P w) = issue P (Status (status_reg P (drv w))) w"
  by (simp_all add: WiFi_status_def)

lemma WiFi_localIP_simps [simp]:
  "fst (WiFi_localIP P w) = address_reg P (drv w)"
  "snd (WiFi_localIP P w) = issue P (LocalIP (address_reg P (drv w))) w"
  by (simp_all add: WiFi_localIP_def)

lemma setDebug_simps [simp]:
  "self (setDebug e w) = (self w)\<lparr>debugEnabled := e\<rparr>"
  "calls (setDebug e w) = calls w"
  "clock (setDebug e w) = clock w"
  "drv (setDebug e w) = drv w"
  "serial (setDebug e w) = serial w"
  by (simp_all add: setDebug_def)

lemma wait_round_simps [simp]:
  "self (wait_round P w) = self w"
  "calls (wait_round P w) = calls w @ [Delay 500]"
  "drv (wait_round P w) = react P (Delay 500) (drv w)"
  by (simp_all add: wait_round_def Let_def)

lemma new_calls_append [simp]: "calls w' = calls w @ cs \<Longrightarrow> new_calls w w' = cs"
  by (simp add: new_calls_def)

section \<open>The accessors\<close>

text \<open>
  C4. \<open>isConnected\<close> returns whether the platform's status register shows
  \<^verbatim>\<open>WL_CONNECTED\<close> at the moment of the call. Replacing the wrapper object, and so the
  cached \<open>connected\<close> field, by any other value \<open>x\<close> changes neither the result nor the
  rest of the world after the call, and the call hands the wrapper object back as it
  found it. Its one platform call is the status query.
\<close>

theorem isConnected_live:
  "fst (isConnected P w) = (status_reg P (drv w) = WL_CONNECTED)
   \<and> fst (isConnected P (w\<lparr>self := x\<rparr>)) = fst (isConnected P w)
   \<and> snd (isConnected P (w\<lparr>self := x\<rparr>)) = (snd (isConnected P w))\<lparr>self := x\<rparr>
   \<and> self (snd (isConnected P w)) = self w
   \<and> new_calls w (snd (isConnected P w)) = [Status (status_reg P (drv w))]"
  by (simp add: isConnected_def Let_def issue_def)

text \<open>
  C7. \<open>status\<close> returns the value of the platform's status register and \<open>localIP\<close> the
  value of its address register, whatever they are. Each makes that one query and
  nothing else: the world after the call is the world before it with the query
  recorded and the driver's own reaction to the query applied.
\<close>

theorem status_localIP_passthrough:
  "fst (status P w) = status_reg P (drv w)
   \<and> snd (status P w) =
       w\<lparr>drv := react P (Status (status_reg P (drv w))) (drv w),
         calls := calls w @ [Status (status_reg P (drv w))]\<rparr>
   \<and> fst (localIP P w) = address_reg P (drv w)
   \<and> snd (localIP P w) =
       w\<lparr>drv := react P (LocalIP (address_reg P (drv w))) (drv w),
         calls := calls w @ [LocalIP (address_reg P (drv w))]\<rparr>"
  by (simp add: status_def localIP_def issue_def)

section \<open>The calls of one \<open>begin\<close>\<close>

lemma polls_Cons: "polls (s # sts) = Status s # Delay 500 # polls sts"
  by (simp add: polls_def)

lemma polls_Nil: "polls [] = []"
  by (simp add: polls_def)

lemma begin_wait_continue:
  assumes "status_reg P (drv w) \<noteq> WL_CONNECTED" and "clock w - startTime < timeout"
  shows "begin_wait P startTime w = begin_wait P startTime (wait_round P (snd (WiFi_status P w)))"
  using assms by (subst begin_wait.simps) (simp add: Let_def millis_def clock_issue)

lemma begin_wait_stop:
  assumes "status_reg P (drv w) = WL_CONNECTED \<or> \<not> clock w - startTime < timeout"
  shows "begin_wait P startTime w = snd (WiFi_status P w)"
  using assms by (subst begin_wait.simps) (auto simp: Let_def millis_def clock_issue)

lemma elapsed_wait_round:
  assumes "clock w - startTime < timeout"
  shows "elapsed startTime (wait_round P (snd (WiFi_status P w))) = elapsed startTime w + 500"
  using elapsed_delay [OF assms]
  by (simp add: elapsed_def millis_def clock_wait_round clock_issue)

lemma begin_wait_shape:
  "\<exists>sts d.
     calls (begin_wait P startTime w) = calls w @ polls sts @ [Status (status_reg P d)]
     \<and> drv (begin_wait P startTime w) = react P (Status (status_reg P d)) d
     \<and> WL_CONNECTED \<notin> set sts
     \<and> (sts = [] \<or> elapsed startTime w + 500 * (length sts - 1) < 20000)
     \<and> (status_reg P d = WL_CONNECTED \<or> 20000 \<le> elapsed startTime w + 500 * length sts)
     \<and> clock (begin_wait P startTime w) = clock w + 500 * of_nat (length sts)
     \<and> self (begin_wait P startTime w) = self w"
proof (induction P startTime w rule: begin_wait.induct)
  case (1 P startTime w)
  let ?st = "status_reg P (drv w)"
  let ?r = "WiFi_status P w"
  let ?n = "wait_round P (snd ?r)"
  show ?case
  proof (cases "fst ?r \<noteq> WL_CONNECTED \<and> millis (snd ?r) - startTime < timeout")
    case True
    then have lt: "clock w - startTime < timeout" and ne: "?st \<noteq> WL_CONNECTED"
      by (simp_all add: millis_def clock_issue)
    note e = elapsed_wait_round [OF lt, of P]
    have small: "elapsed startTime w < 20000"
      using lt by (simp add: elapsed_def millis_def timeout_def word_less_nat_alt)
    from "1.IH" [OF refl True] obtain sts d where
      c: "calls (begin_wait P startTime ?n) = calls ?n @ polls sts @ [Status (status_reg P d)]"
      and v: "drv (begin_wait P startTime ?n) = react P (Status (status_reg P d)) d"
      and n: "WL_CONNECTED \<notin> set sts"
      and b: "sts = [] \<or> elapsed startTime ?n + 500 * (length sts - 1) < 20000"
      and f: "status_reg P d = WL_CONNECTED \<or> 20000 \<le> elapsed startTime ?n + 500 * length sts"
      and k: "clock (begin_wait P startTime ?n) = clock ?n + 500 * of_nat (length sts)"
      and s: "self (begin_wait P startTime ?n) = self ?n"
      by blast
    note unfold = begin_wait_continue [OF ne lt]
    have "calls (begin_wait P startTime w) = calls w @ polls (?st # sts) @ [Status (status_reg P d)]"
      using c by (simp add: unfold polls_Cons)
    moreover have "drv (begin_wait P startTime w) = react P (Status (status_reg P d)) d"
      using v by (simp add: unfold)
    moreover have "WL_CONNECTED \<notin> set (?st # sts)"
      using n ne by auto
    moreover have "elapsed startTime w + 500 * (length (?st # sts) - 1) < 20000"
      using b small e by (cases sts) auto
    moreover have "status_reg P d = WL_CONNECTED
        \<or> 20000 \<le> elapsed startTime w + 500 * length (?st # sts)"
      using f e by auto
    moreover have "clock (begin_wait P startTime w) = clock w + 500 * of_nat (length (?st # sts))"
      using k by (simp add: unfold clock_wait_round clock_issue algebra_simps)
    moreover have "self (begin_wait P startTime w) = self w"
      using s by (simp add: unfold)
    ultimately show ?thesis
      by blast
  next
    case False
    then have stop: "?st = WL_CONNECTED \<or> \<not> clock w - startTime < timeout"
      by (simp add: millis_def clock_issue)
    note unfold = begin_wait_stop [OF stop]
    from stop have f: "?st = WL_CONNECTED \<or> 20000 \<le> elapsed startTime w"
      by (auto simp: elapsed_def millis_def timeout_def word_less_nat_alt)
    have "calls (begin_wait P startTime w) = calls w @ polls [] @ [Status ?st]"
      by (simp add: unfold polls_Nil)
    moreover have "drv (begin_wait P startTime w) = react P (Status ?st) (drv w)"
      by (simp add: unfold)
    moreover have "clock (begin_wait P startTime w)
        = clock w + 500 * of_nat (length ([] :: wl_status_t list))"
      by (simp add: unfold clock_issue)
    moreover have "self (begin_wait P startTime w) = self w"
      by (simp add: unfold)
    ultimately show ?thesis
      using f by (intro exI [of _ "[]"] exI [of _ "drv w"]) simp
  qed
qed

text \<open>From the start of the loop, where nothing has elapsed.\<close>

lemma begin_wait_from_start:
  "\<exists>sts d.
     calls (begin_wait P (millis w) w) = calls w @ polls sts @ [Status (status_reg P d)]
     \<and> drv (begin_wait P (millis w) w) = react P (Status (status_reg P d)) d
     \<and> WL_CONNECTED \<notin> set sts
     \<and> length sts \<le> 40
     \<and> (status_reg P d = WL_CONNECTED \<or> length sts = 40)
     \<and> clock (begin_wait P (millis w) w) = clock w + 500 * of_nat (length sts)
     \<and> self (begin_wait P (millis w) w) = self w"
proof -
  have z: "elapsed (millis w) w = 0"
    by (simp add: elapsed_def)
  from begin_wait_shape [of P "millis w" w] obtain sts d where
      c: "calls (begin_wait P (millis w) w) = calls w @ polls sts @ [Status (status_reg P d)]"
      and v: "drv (begin_wait P (millis w) w) = react P (Status (status_reg P d)) d"
      and n: "WL_CONNECTED \<notin> set sts"
      and b: "sts = [] \<or> elapsed (millis w) w + 500 * (length sts - 1) < 20000"
      and f: "status_reg P d = WL_CONNECTED \<or> 20000 \<le> elapsed (millis w) w + 500 * length sts"
      and k: "clock (begin_wait P (millis w) w) = clock w + 500 * of_nat (length sts)"
      and s: "self (begin_wait P (millis w) w) = self w"
    by blast
  from b z have le: "length sts \<le> 40"
    by (cases sts) auto
  from f z le have "status_reg P d = WL_CONNECTED \<or> length sts = 40"
    by auto
  with c v n le k s show ?thesis
    by blast
qed

lemma begin_configure_simps:
  "calls (begin_configure P ssid username password e w) = calls w @ configure_calls ssid username password"
  "self (begin_configure P ssid username password e w) = (self w)\<lparr>debugEnabled := e\<rparr>"
  "clock (begin_configure P ssid username password e w) = clock w + 1000"
  by (simp_all add: begin_configure_def configure_calls_def Let_def clock_issue clock_delay)

lemma begin_report_simps:
  "fst (begin_report P w) = (status_reg P (drv w) = WL_CONNECTED)"
  "connected (self (snd (begin_report P w))) = (status_reg P (drv w) = WL_CONNECTED)"
  "debugEnabled (self (snd (begin_report P w))) = debugEnabled (self w)"
  "clock (snd (begin_report P w)) = clock w"
  "calls (snd (begin_report P w)) = calls w @
     (if status_reg P (drv w) = WL_CONNECTED
      then [Status WL_CONNECTED,
            LocalIP (address_reg P (react P (Status WL_CONNECTED) (drv w)))]
      else [Status (status_reg P (drv w)),
            Status (status_reg P (react P (Status (status_reg P (drv w))) (drv w))),
            Ent_disable])"
  by (simp_all add: begin_report_def Let_def clock_issue)

lemma begin_after_wait:
  "WiFiEnterprise_begin P ssid username password e w =
     begin_report P (after_wait P ssid username password e w)"
  by (simp add: WiFiEnterprise_begin_def after_wait_def Let_def)

lemma begin_trace:
  "\<exists>sts d a s.
     calls (snd (WiFiEnterprise_begin P ssid username password e w)) =
       calls w @ configure_calls ssid username password @ polls sts
         @ [Status (status_reg P d), Status (status_reg P (react P (Status (status_reg P d)) d))]
         @ (if fst (WiFiEnterprise_begin P ssid username password e w) then [LocalIP a]
            else [Status s, Ent_disable])
     \<and> drv (after_wait P ssid username password e w) = react P (Status (status_reg P d)) d
     \<and> WL_CONNECTED \<notin> set sts
     \<and> length sts \<le> 40
     \<and> (status_reg P d = WL_CONNECTED \<or> length sts = 40)
     \<and> s = status_reg P (react P (Status (status_reg P (react P (Status (status_reg P d)) d)))
             (react P (Status (status_reg P d)) d))
     \<and> clock (snd (WiFiEnterprise_begin P ssid username password e w)) =
         clock w + 1000 + 500 * of_nat (length sts)"
proof -
  let ?c = "begin_configure P ssid username password e w"
  let ?a = "after_wait P ssid username password e w"
  from begin_wait_from_start [of P ?c] obtain sts d where
      c: "calls ?a = calls ?c @ polls sts @ [Status (status_reg P d)]"
      and v: "drv ?a = react P (Status (status_reg P d)) d"
      and n: "WL_CONNECTED \<notin> set sts"
      and le: "length sts \<le> 40"
      and f: "status_reg P d = WL_CONNECTED \<or> length sts = 40"
      and k: "clock ?a = clock ?c + 500 * of_nat (length sts)"
    unfolding after_wait_def Let_def by blast
  let ?decide = "status_reg P (react P (Status (status_reg P d)) d)"
  let ?s = "status_reg P (react P (Status ?decide) (react P (Status (status_reg P d)) d))"
  let ?ip = "address_reg P (react P (Status WL_CONNECTED) (drv ?a))"
  have "calls (snd (WiFiEnterprise_begin P ssid username password e w)) =
       calls w @ configure_calls ssid username password @ polls sts
         @ [Status (status_reg P d), Status ?decide]
         @ (if fst (WiFiEnterprise_begin P ssid username password e w) then [LocalIP ?ip]
            else [Status ?s, Ent_disable])"
    using c v by (simp add: begin_after_wait begin_report_simps begin_configure_simps)
  moreover have "clock (snd (WiFiEnterprise_begin P ssid username password e w)) =
         clock w + 1000 + 500 * of_nat (length sts)"
    using k by (simp add: begin_after_wait begin_report_simps begin_configure_simps)
  ultimately show ?thesis
    using v n le f by blast
qed

lemma begin_fst:
  "fst (WiFiEnterprise_begin P ssid username password e w) =
     (status_reg P (drv (after_wait P ssid username password e w)) = WL_CONNECTED)"
  by (simp add: begin_after_wait begin_report_simps)

lemma begin_connected:
  "connected (self (snd (WiFiEnterprise_begin P ssid username password e w))) =
     fst (WiFiEnterprise_begin P ssid username password e w)"
  by (simp add: begin_after_wait begin_report_simps)

lemma filter_polls [simp]:
  "filter is_setup (polls sts) = []"
  "filter is_identity (polls sts) = []"
  "filter is_username (polls sts) = []"
  "filter is_delay (polls sts) = replicate (length sts) (Delay 500)"
  "count_list (polls sts) Ent_disable = 0"
  by (induction sts) (simp_all add: polls_Cons polls_Nil)

lemma commanded_append: "commanded g (xs @ ys) = commanded (commanded g xs) ys"
  by (simp add: commanded_def)

lemma commanded_polls [simp]: "commanded g (polls sts) = g"
  by (induction sts) (simp_all add: polls_Cons polls_Nil commanded_def)

text \<open>
  C2. Whatever the arguments, the debug setting, the platform and the world it starts
  from, the configuring operations that one call of \<open>begin\<close> issues are, in this order and
  once each: force-disconnect, station-mode select, set identity, set username, set
  password, enable enterprise mode, initiate association with the SSID. They are the
  first calls it makes, with only the settle delay between the first two; nothing
  that follows (the polls, the sleeps, the closing queries, the disable of the failure
  path) is one of them.
\<close>

theorem begin_setup_order:
  "filter is_setup (new_calls w (snd (WiFiEnterprise_begin P ssid username password e w))) =
     [Disconnect True, Mode WIFI_STA,
      Set_identity username (strlen username), Set_username username (strlen username),
      Set_password password (strlen password), Ent_enable, Begin ssid]
   \<and> take 8 (new_calls w (snd (WiFiEnterprise_begin P ssid username password e w))) =
     [Disconnect True, Delay 1000, Mode WIFI_STA,
      Set_identity username (strlen username), Set_username username (strlen username),
      Set_password password (strlen password), Ent_enable, Begin ssid]"
proof -
  from begin_trace [of P ssid username password e w] obtain sts x y a s where
    "calls (snd (WiFiEnterprise_begin P ssid username password e w)) =
       calls w @ configure_calls ssid username password @ polls sts
         @ [Status x, Status y]
         @ (if fst (WiFiEnterprise_begin P ssid username password e w) then [LocalIP a]
            else [Status s, Ent_disable])"
    by blast
  then have "new_calls w (snd (WiFiEnterprise_begin P ssid username password e w)) =
      configure_calls ssid username password @ polls sts
         @ [Status x, Status y]
         @ (if fst (WiFiEnterprise_begin P ssid username password e w) then [LocalIP a]
            else [Status s, Ent_disable])"
    by (rule new_calls_append)
  then show ?thesis
    by (simp add: configure_calls_def)
qed

text \<open>
  C3. \<open>begin\<close> is a total function: the polling loop is defined with a proof that it
  ends, for every platform and every value of the clock, also across the wrap of the
  32-bit millisecond counter. In every call the new platform calls are the
  configuring calls, then some rounds of polling, each a status read that was not
  \<^verbatim>\<open>WL_CONNECTED\<close> followed by a sleep of 500, then one more status read that ended the
  loop. There are at most 40 rounds (20000 / 500), and fewer than 40 only if the read
  that ended the loop was \<^verbatim>\<open>WL_CONNECTED\<close>. The sleeps of the call are the settle delay of
  1000 and one sleep of 500 per round, and the clock has advanced by exactly their sum.
\<close>

theorem begin_bounded_polling:
  "\<exists>sts final rest.
     new_calls w (snd (WiFiEnterprise_begin P ssid username password e w)) =
       configure_calls ssid username password @ polls sts @ [Status final] @ rest
     \<and> WL_CONNECTED \<notin> set sts
     \<and> length sts \<le> 40
     \<and> (final = WL_CONNECTED \<or> length sts = 40)
     \<and> filter is_delay (new_calls w (snd (WiFiEnterprise_begin P ssid username password e w))) =
         Delay 1000 # replicate (length sts) (Delay 500)
     \<and> clock (snd (WiFiEnterprise_begin P ssid username password e w)) =
         clock w + 1000 + 500 * of_nat (length sts)"
proof -
  let ?r = "WiFiEnterprise_begin P ssid username password e w"
  from begin_trace [of P ssid username password e w] obtain sts d a s where
    c: "calls (snd ?r) =
       calls w @ configure_calls ssid username password @ polls sts
         @ [Status (status_reg P d), Status (status_reg P (react P (Status (status_reg P d)) d))]
         @ (if fst ?r then [LocalIP a] else [Status s, Ent_disable])"
    and n: "WL_CONNECTED \<notin> set sts"
    and le: "length sts \<le> 40"
    and f: "status_reg P d = WL_CONNECTED \<or> length sts = 40"
    and k: "clock (snd ?r) = clock w + 1000 + 500 * of_nat (length sts)"
    by blast
  let ?rest = "Status (status_reg P (react P (Status (status_reg P d)) d))
      # (if fst ?r then [LocalIP a] else [Status s, Ent_disable])"
  from c have nc: "new_calls w (snd ?r) =
      configure_calls ssid username password @ polls sts @ [Status (status_reg P d)] @ ?rest"
    by (intro new_calls_append) simp
  have "filter is_delay (new_calls w (snd ?r)) = Delay 1000 # replicate (length sts) (Delay 500)"
    unfolding nc by (simp add: configure_calls_def)
  with nc n le f k show ?thesis
    by blast
qed

text \<open>
  C8. In every call of \<open>begin\<close> the identity setter is called once, with the \<open>username\<close>
  buffer and \<^verbatim>\<open>strlen(username)\<close>, and the username setter once with the same buffer and
  the same length. So the bytes programmed as EAP identity and as EAP username are the
  same: the C string \<open>username\<close>.
\<close>

theorem begin_identity_is_username:
  "filter is_identity (new_calls w (snd (WiFiEnterprise_begin P ssid username password e w))) =
     [Set_identity username (strlen username)]
   \<and> filter is_username (new_calls w (snd (WiFiEnterprise_begin P ssid username password e w))) =
     [Set_username username (strlen username)]
   \<and> map eap_bytes
       (filter is_identity (new_calls w (snd (WiFiEnterprise_begin P ssid username password e w)))) =
     [c_str username]
   \<and> map eap_bytes
       (filter is_username (new_calls w (snd (WiFiEnterprise_begin P ssid username password e w)))) =
     [c_str username]"
proof -
  let ?r = "WiFiEnterprise_begin P ssid username password e w"
  from begin_trace [of P ssid username password e w] obtain sts x y a s where
    "calls (snd ?r) =
       calls w @ configure_calls ssid username password @ polls sts
         @ [Status x, Status y]
         @ (if fst ?r then [LocalIP a] else [Status s, Ent_disable])"
    by blast
  then have nc: "new_calls w (snd ?r) =
      configure_calls ssid username password @ polls sts
         @ [Status x, Status y]
         @ (if fst ?r then [LocalIP a] else [Status s, Ent_disable])"
    by (rule new_calls_append)
  have t: "take (strlen username) username = c_str username"
    unfolding strlen_def c_str_def by (rule takeWhile_eq_take [symmetric])
  show ?thesis
    unfolding nc by (simp add: configure_calls_def t)
qed

lemma begin_new_calls:
  "\<exists>sts x y a s.
     new_calls w (snd (WiFiEnterprise_begin P ssid username password e w)) =
       configure_calls ssid username password @ polls sts @ [Status x, Status y]
         @ (if fst (WiFiEnterprise_begin P ssid username password e w) then [LocalIP a]
            else [Status s, Ent_disable])
     \<and> calls (snd (WiFiEnterprise_begin P ssid username password e w)) =
         calls w @ new_calls w (snd (WiFiEnterprise_begin P ssid username password e w))"
proof -
  let ?r = "WiFiEnterprise_begin P ssid username password e w"
  from begin_trace [of P ssid username password e w] obtain sts x y a s where
    c: "calls (snd ?r) =
       calls w @ configure_calls ssid username password @ polls sts
         @ [Status x, Status y]
         @ (if fst ?r then [LocalIP a] else [Status s, Ent_disable])"
    by blast
  then have nc: "new_calls w (snd ?r) =
      configure_calls ssid username password @ polls sts
         @ [Status x, Status y]
         @ (if fst ?r then [LocalIP a] else [Status s, Ent_disable])"
    by (rule new_calls_append)
  with c show ?thesis
    by auto
qed

lemma end_simps:
  "calls (WiFiEnterprise_end P w) = calls w @ [Ent_disable, Disconnect True]"
  "self (WiFiEnterprise_end P w) = (self w)\<lparr>connected := False\<rparr>"
  "clock (WiFiEnterprise_end P w) = clock w"
  "drv (WiFiEnterprise_end P w) = react P (Disconnect True) (react P Ent_disable (drv w))"
  by (simp_all add: WiFiEnterprise_end_def Let_def clock_issue)

lemma fold_command_polls [simp]: "fold command (polls sts) g = g"
  by (induction sts) (simp_all add: polls_Cons polls_Nil)

lemma count_enable_polls [simp]: "count_list (polls sts) Ent_enable = 0"
  by (induction sts) (simp_all add: polls_Cons polls_Nil)

text \<open>
  C10. After \<open>begin\<close> the enterprise-mode flag the driver was commanded into equals the
  value \<open>begin\<close> returned: left enabled on success, disabled on failure. \<open>begin\<close> issues the
  enable operation once; it issues the disable operation once when it returns false
  and not at all when it returns true. \<open>end\<close> issues the disable operation and leaves
  the flag off. None of \<open>isConnected\<close>, \<open>status\<close>, \<open>localIP\<close> and \<open>setDebug\<close> issues it.
\<close>

theorem begin_success_keeps_enterprise:
  "enterprise (commanded g (calls (snd (WiFiEnterprise_begin P ssid username password e w)))) =
     fst (WiFiEnterprise_begin P ssid username password e w)
   \<and> count_list (new_calls w (snd (WiFiEnterprise_begin P ssid username password e w))) Ent_disable =
     (if fst (WiFiEnterprise_begin P ssid username password e w) then 0 else 1)
   \<and> count_list (new_calls w (snd (WiFiEnterprise_begin P ssid username password e w))) Ent_enable = 1
   \<and> enterprise (commanded g (calls (WiFiEnterprise_end P w))) = False
   \<and> count_list (new_calls w (WiFiEnterprise_end P w)) Ent_disable = 1
   \<and> count_list (new_calls w (snd (isConnected P w))) Ent_disable = 0
   \<and> count_list (new_calls w (snd (status P w))) Ent_disable = 0
   \<and> count_list (new_calls w (snd (localIP P w))) Ent_disable = 0
   \<and> count_list (new_calls w (setDebug b w)) Ent_disable = 0"
proof -
  let ?r = "WiFiEnterprise_begin P ssid username password e w"
  from begin_new_calls [of w P ssid username password e] obtain sts x y a s where
    nc: "new_calls w (snd ?r) =
      configure_calls ssid username password @ polls sts
         @ [Status x, Status y]
         @ (if fst ?r then [LocalIP a] else [Status s, Ent_disable])"
    and c: "calls (snd ?r) = calls w @ new_calls w (snd ?r)"
    by blast
  have 1: "enterprise (commanded g (calls (snd ?r))) = fst ?r"
    unfolding c nc by (simp add: commanded_def configure_calls_def)
  have 2: "count_list (new_calls w (snd ?r)) Ent_disable = (if fst ?r then 0 else 1)"
    unfolding nc by (simp add: configure_calls_def)
  have 3: "count_list (new_calls w (snd ?r)) Ent_enable = 1"
    unfolding nc by (simp add: configure_calls_def)
  have 4: "enterprise (commanded g (calls (WiFiEnterprise_end P w))) = False"
    by (simp add: end_simps commanded_def)
  have 5: "count_list (new_calls w (WiFiEnterprise_end P w)) Ent_disable = 1"
    by (simp add: end_simps)
  have 6: "count_list (new_calls w (snd (isConnected P w))) Ent_disable = 0"
    by (simp add: isConnected_def Let_def)
  have 7: "count_list (new_calls w (snd (status P w))) Ent_disable = 0"
    by (simp add: status_def)
  have 8: "count_list (new_calls w (snd (localIP P w))) Ent_disable = 0"
    by (simp add: localIP_def)
  have 9: "count_list (new_calls w (setDebug b w)) Ent_disable = 0"
    by (simp add: new_calls_def)
  from 1 2 3 4 5 6 7 8 9 show ?thesis
    by blast
qed

lemma Status_in_polls [simp]: "Status x \<in> set (polls sts) \<longleftrightarrow> x \<in> set sts"
  by (induction sts) (auto simp: polls_Cons polls_Nil)

lemma begin_stable_reads:
  assumes stable: "\<forall>d s. status_reg P (react P (Status s) d) = status_reg P d"
  shows "fst (WiFiEnterprise_begin P ssid username password e w) =
     (Status WL_CONNECTED \<in> set (new_calls w (snd (WiFiEnterprise_begin P ssid username password e w))))"
proof -
  let ?r = "WiFiEnterprise_begin P ssid username password e w"
  from begin_trace [of P ssid username password e w] obtain sts d a s where
    c: "calls (snd ?r) =
       calls w @ configure_calls ssid username password @ polls sts
         @ [Status (status_reg P d), Status (status_reg P (react P (Status (status_reg P d)) d))]
         @ (if fst ?r then [LocalIP a] else [Status s, Ent_disable])"
    and v: "drv (after_wait P ssid username password e w) = react P (Status (status_reg P d)) d"
    and n: "WL_CONNECTED \<notin> set sts"
    and s: "s = status_reg P (react P (Status (status_reg P (react P (Status (status_reg P d)) d)))
             (react P (Status (status_reg P d)) d))"
    by blast
  from s stable have s': "s = status_reg P d"
    by simp
  from v stable have f: "fst ?r = (status_reg P d = WL_CONNECTED)"
    by (simp add: begin_fst)
  from c have "new_calls w (snd ?r) =
      configure_calls ssid username password @ polls sts
         @ [Status (status_reg P d), Status (status_reg P (react P (Status (status_reg P d)) d))]
         @ (if fst ?r then [LocalIP a] else [Status s, Ent_disable])"
    by (rule new_calls_append)
  then show ?thesis
    using n stable s' f by (auto simp: configure_calls_def)
qed

text \<open>The polls of the loop, by number.\<close>

lemma clock_nth_poll: "clock (nth_poll P k w) = clock w + 500 * of_nat k"
  by (induction k arbitrary: w) (simp_all add: clock_wait_round clock_issue algebra_simps)

lemma poll_reading_0: "poll_reading P w 0 = status_reg P (drv w)"
  by (simp add: poll_reading_def)

lemma poll_reading_Suc:
  "poll_reading P w (Suc k) = poll_reading P (wait_round P (snd (WiFi_status P w))) k"
  by (simp add: poll_reading_def)

lemma poll_readings_Suc:
  "map (poll_reading P w) [0..<Suc n] =
     status_reg P (drv w) # map (poll_reading P (wait_round P (snd (WiFi_status P w)))) [0..<n]"
  by (simp only: map_upt_Suc poll_reading_0 poll_reading_Suc)

text \<open>The loop ends at a poll whose number is bounded by the time left.\<close>

lemma begin_wait_nth_poll:
  "\<exists>n. begin_wait P startTime w = snd (WiFi_status P (nth_poll P n w))
     \<and> WL_CONNECTED \<notin> set (map (poll_reading P w) [0..<n])
     \<and> (poll_reading P w n = WL_CONNECTED \<or> 20000 \<le> elapsed startTime w + 500 * n)
     \<and> (n = 0 \<or> elapsed startTime w + 500 * (n - 1) < 20000)"
proof (induction P startTime w rule: begin_wait.induct)
  case (1 P startTime w)
  let ?st = "status_reg P (drv w)"
  let ?n = "wait_round P (snd (WiFi_status P w))"
  show ?case
  proof (cases "fst (WiFi_status P w) \<noteq> WL_CONNECTED
                 \<and> millis (snd (WiFi_status P w)) - startTime < timeout")
    case True
    then have lt: "clock w - startTime < timeout" and ne: "?st \<noteq> WL_CONNECTED"
      by (simp_all add: millis_def clock_issue)
    note e = elapsed_wait_round [OF lt, of P]
    have small: "elapsed startTime w < 20000"
      using lt by (simp add: elapsed_def millis_def timeout_def word_less_nat_alt)
    from "1.IH" [OF refl True] obtain n where
      w: "begin_wait P startTime ?n = snd (WiFi_status P (nth_poll P n ?n))"
      and r: "WL_CONNECTED \<notin> set (map (poll_reading P ?n) [0..<n])"
      and f: "poll_reading P ?n n = WL_CONNECTED \<or> 20000 \<le> elapsed startTime ?n + 500 * n"
      and b: "n = 0 \<or> elapsed startTime ?n + 500 * (n - 1) < 20000"
      by blast
    have "begin_wait P startTime w = snd (WiFi_status P (nth_poll P (Suc n) w))"
      using w by (simp only: begin_wait_continue [OF ne lt] nth_poll.simps)
    moreover have "WL_CONNECTED \<notin> set (map (poll_reading P w) [0..<Suc n])"
      using r ne by (simp only: poll_readings_Suc) simp
    moreover have "poll_reading P w (Suc n) = WL_CONNECTED
        \<or> 20000 \<le> elapsed startTime w + 500 * Suc n"
      using f e unfolding poll_reading_Suc by auto
    moreover have "Suc n = 0 \<or> elapsed startTime w + 500 * (Suc n - 1) < 20000"
      using b small e by (cases n) auto
    ultimately show ?thesis
      by blast
  next
    case False
    then have stop: "?st = WL_CONNECTED \<or> \<not> clock w - startTime < timeout"
      by (simp add: millis_def clock_issue)
    from stop have f: "?st = WL_CONNECTED \<or> 20000 \<le> elapsed startTime w"
      by (auto simp: elapsed_def millis_def timeout_def word_less_nat_alt)
    have "begin_wait P startTime w = snd (WiFi_status P (nth_poll P 0 w))"
      by (simp only: begin_wait_stop [OF stop] nth_poll.simps)
    moreover have "WL_CONNECTED \<notin> set (map (poll_reading P w) [0..<0])"
      by simp
    moreover have "poll_reading P w 0 = WL_CONNECTED \<or> 20000 \<le> elapsed startTime w + 500 * 0"
      using f by (simp add: poll_reading_0)
    ultimately show ?thesis
      by blast
  qed
qed

lemma after_wait_nth_poll:
  "\<exists>n\<le>40.
     after_wait P ssid username password e w =
       snd (WiFi_status P (nth_poll P n (begin_configure P ssid username password e w)))
     \<and> WL_CONNECTED \<notin> set (map (poll_reading P (begin_configure P ssid username password e w)) [0..<n])
     \<and> (poll_reading P (begin_configure P ssid username password e w) n = WL_CONNECTED \<or> n = 40)"
proof -
  let ?c = "begin_configure P ssid username password e w"
  have z: "elapsed (millis ?c) ?c = 0"
    by (simp add: elapsed_def)
  from begin_wait_nth_poll [of P "millis ?c" ?c] obtain n where
    w: "begin_wait P (millis ?c) ?c = snd (WiFi_status P (nth_poll P n ?c))"
    and r: "WL_CONNECTED \<notin> set (map (poll_reading P ?c) [0..<n])"
    and f: "poll_reading P ?c n = WL_CONNECTED \<or> 20000 \<le> elapsed (millis ?c) ?c + 500 * n"
    and b: "n = 0 \<or> elapsed (millis ?c) ?c + 500 * (n - 1) < 20000"
    by blast
  from b z have le: "n \<le> 40"
    by (cases n) auto
  from f z le have "poll_reading P ?c n = WL_CONNECTED \<or> n = 40"
    by auto
  with w r le show ?thesis
    unfolding after_wait_def Let_def by blast
qed

lemma begin_within_window:
  assumes stable: "\<forall>d s. status_reg P (react P (Status s) d) = status_reg P d"
  shows "fst (WiFiEnterprise_begin P ssid username password e w) =
     (\<exists>k\<le>40. poll_reading P (begin_configure P ssid username password e w) k = WL_CONNECTED)"
proof -
  let ?c = "begin_configure P ssid username password e w"
  from after_wait_nth_poll [of P ssid username password e w] obtain n where
    le: "n \<le> 40"
    and w: "after_wait P ssid username password e w = snd (WiFi_status P (nth_poll P n ?c))"
    and r: "WL_CONNECTED \<notin> set (map (poll_reading P ?c) [0..<n])"
    and f: "poll_reading P ?c n = WL_CONNECTED \<or> n = 40"
    by blast
  have "status_reg P (drv (after_wait P ssid username password e w)) = poll_reading P ?c n"
    using stable by (simp add: w poll_reading_def)
  then have res: "fst (WiFiEnterprise_begin P ssid username password e w) =
      (poll_reading P ?c n = WL_CONNECTED)"
    by (simp add: begin_fst)
  show ?thesis
  proof (cases "poll_reading P ?c n = WL_CONNECTED")
    case True
    with le res show ?thesis
      by blast
  next
    case False
    with f have n: "n = 40"
      by simp
    have before: "poll_reading P ?c k \<noteq> WL_CONNECTED" if "k < n" for k
    proof
      assume "poll_reading P ?c k = WL_CONNECTED"
      with that have "WL_CONNECTED \<in> poll_reading P ?c ` {0..<n}"
        by (intro image_eqI [where x = k]) simp_all
      with r show False
        by simp
    qed
    have "\<not> (\<exists>k\<le>40. poll_reading P ?c k = WL_CONNECTED)"
    proof
      assume "\<exists>k\<le>40. poll_reading P ?c k = WL_CONNECTED"
      then obtain k where k: "k \<le> 40" and c: "poll_reading P ?c k = WL_CONNECTED"
        by blast
      show False
      proof (cases "k = 40")
        case True
        with c False n show False
          by simp
      next
        case False
        with k n have "k < n"
          by simp
        from before [OF this] c show False
          by simp
      qed
    qed
    with res False show ?thesis
      by simp
  qed
qed

lemma elapsed_nth_poll:
  assumes "n \<le> 40"
  shows "elapsed (millis w) (nth_poll P n w) = 500 * n"
proof -
  have d: "clock (nth_poll P n w) - clock w = of_nat (500 * n)"
    by (simp add: clock_nth_poll)
  have "unat (of_nat (500 * n) :: 32 word) = 500 * n mod 2 ^ LENGTH(32)"
    by (rule unat_of_nat)
  also have "\<dots> = 500 * n"
    using assms by simp
  finally show ?thesis
    by (simp only: elapsed_def millis_def d)
qed

text \<open>
  C1, as amended. The polling loop reads the status 0, 500, 1000, ... ms after polling
  starts and ends at the first poll that shows \<^verbatim>\<open>WL_CONNECTED\<close>, or else at the poll made
  20000 ms in: it ends at a poll number \<open>n\<close> of at most 40, made \<open>500 * n\<close> ms in, no poll
  before it showed \<^verbatim>\<open>WL_CONNECTED\<close>, and either poll \<open>n\<close> did or \<open>n\<close> is 40. \<open>begin\<close> then reads
  the status once more (line 46) and returns true exactly if that read is
  \<^verbatim>\<open>WL_CONNECTED\<close>; the \<open>connected\<close> field is set to the value returned; the disable
  operation is issued once if the result is false, as the last platform call, and not
  at all if it is true. For a platform whose status register is not changed by being
  read, \<open>begin\<close> returns true exactly if the register shows \<^verbatim>\<open>WL_CONNECTED\<close> to one of the
  polls made 0, 500, ..., 20000 ms after polling starts, which is also exactly when
  some status read of the call was \<^verbatim>\<open>WL_CONNECTED\<close>.
\<close>

theorem begin_result:
  "fst (WiFiEnterprise_begin P ssid username password e w) =
     (status_reg P (drv (after_wait P ssid username password e w)) = WL_CONNECTED)
   \<and> connected (self (snd (WiFiEnterprise_begin P ssid username password e w))) =
     fst (WiFiEnterprise_begin P ssid username password e w)
   \<and> count_list (new_calls w (snd (WiFiEnterprise_begin P ssid username password e w))) Ent_disable =
     (if fst (WiFiEnterprise_begin P ssid username password e w) then 0 else 1)
   \<and> (fst (WiFiEnterprise_begin P ssid username password e w)
       \<or> last (calls (snd (WiFiEnterprise_begin P ssid username password e w))) = Ent_disable)
   \<and> (\<exists>n\<le>40.
         after_wait P ssid username password e w =
           snd (WiFi_status P (nth_poll P n (begin_configure P ssid username password e w)))
         \<and> elapsed (millis (begin_configure P ssid username password e w))
             (nth_poll P n (begin_configure P ssid username password e w)) = 500 * n
         \<and> WL_CONNECTED
             \<notin> set (map (poll_reading P (begin_configure P ssid username password e w)) [0..<n])
         \<and> (poll_reading P (begin_configure P ssid username password e w) n = WL_CONNECTED
             \<or> n = 40))
   \<and> ((\<forall>d s. status_reg P (react P (Status s) d) = status_reg P d) \<longrightarrow>
       fst (WiFiEnterprise_begin P ssid username password e w) =
         (\<exists>k\<le>40. poll_reading P (begin_configure P ssid username password e w) k = WL_CONNECTED)
       \<and> fst (WiFiEnterprise_begin P ssid username password e w) =
         (Status WL_CONNECTED
            \<in> set (new_calls w (snd (WiFiEnterprise_begin P ssid username password e w)))))"
proof -
  let ?r = "WiFiEnterprise_begin P ssid username password e w"
  let ?c = "begin_configure P ssid username password e w"
  from begin_new_calls [of w P ssid username password e] obtain sts x y a s where
    nc: "new_calls w (snd ?r) =
      configure_calls ssid username password @ polls sts
         @ [Status x, Status y]
         @ (if fst ?r then [LocalIP a] else [Status s, Ent_disable])"
    and c: "calls (snd ?r) = calls w @ new_calls w (snd ?r)"
    by blast
  have 1: "count_list (new_calls w (snd ?r)) Ent_disable = (if fst ?r then 0 else 1)"
    unfolding nc by (simp add: configure_calls_def)
  have 2: "fst ?r \<or> last (calls (snd ?r)) = Ent_disable"
    unfolding c nc by simp
  from after_wait_nth_poll [of P ssid username password e w] obtain n where
    le: "n \<le> 40"
    and w: "after_wait P ssid username password e w = snd (WiFi_status P (nth_poll P n ?c))"
    and r: "WL_CONNECTED \<notin> set (map (poll_reading P ?c) [0..<n])"
    and f: "poll_reading P ?c n = WL_CONNECTED \<or> n = 40"
    by blast
  from le w r f elapsed_nth_poll [OF le, of ?c P]
  have 3: "\<exists>n\<le>40.
         after_wait P ssid username password e w = snd (WiFi_status P (nth_poll P n ?c))
         \<and> elapsed (millis ?c) (nth_poll P n ?c) = 500 * n
         \<and> WL_CONNECTED \<notin> set (map (poll_reading P ?c) [0..<n])
         \<and> (poll_reading P ?c n = WL_CONNECTED \<or> n = 40)"
    by blast
  from begin_fst [of P ssid username password e w] begin_connected [of P ssid username password e w]
    1 2 3 begin_within_window [of P ssid username password e w]
    begin_stable_reads [of P ssid username password e w]
  show ?thesis
    by blast
qed

text \<open>
  The timed driver has repeatable reads. Started 21000 ms from being connected, it is
  connected at the poll made 20000 ms in (after the settle delay of 1000), the last of
  the window, and \<open>begin\<close> returns true. Started 21001 ms from being connected, no poll
  of the window finds it connected and \<open>begin\<close> returns false and disables enterprise
  mode.
\<close>

theorem begin_result_witness:
  "fst (WiFiEnterprise_begin timed ''Corp'' ''alice'' ''secret'' False (boot 21000)) = True
   \<and> connected (self (snd (WiFiEnterprise_begin timed ''Corp'' ''alice'' ''secret'' False (boot 21000)))) = True
   \<and> count_list (new_calls (boot 21000)
        (snd (WiFiEnterprise_begin timed ''Corp'' ''alice'' ''secret'' False (boot 21000)))) Ent_disable = 0
   \<and> (\<exists>k\<le>40. poll_reading timed
          (begin_configure timed ''Corp'' ''alice'' ''secret'' False (boot 21000)) k = WL_CONNECTED)
   \<and> fst (WiFiEnterprise_begin timed ''Corp'' ''alice'' ''secret'' False (boot 21001)) = False
   \<and> connected (self (snd (WiFiEnterprise_begin timed ''Corp'' ''alice'' ''secret'' False (boot 21001)))) = False
   \<and> count_list (new_calls (boot 21001)
        (snd (WiFiEnterprise_begin timed ''Corp'' ''alice'' ''secret'' False (boot 21001)))) Ent_disable = 1
   \<and> \<not> (\<exists>k\<le>40. poll_reading timed
          (begin_configure timed ''Corp'' ''alice'' ''secret'' False (boot 21001)) k = WL_CONNECTED)
   \<and> last (calls (snd (WiFiEnterprise_begin timed ''Corp'' ''alice'' ''secret'' False (boot 21001))))
       = Ent_disable"
proof -
  have stable: "\<forall>d s. status_reg timed (react timed (Status s) d) = status_reg timed d"
    by (simp add: timed_def)
  have v: "fst (WiFiEnterprise_begin timed ''Corp'' ''alice'' ''secret'' False (boot 21000)) = True"
    by code_simp
  have v': "fst (WiFiEnterprise_begin timed ''Corp'' ''alice'' ''secret'' False (boot 21001)) = False"
    by code_simp
  from begin_result [of timed "''Corp''" "''alice''" "''secret''" False "boot 21000"] stable v
  have a: "connected (self (snd (WiFiEnterprise_begin timed ''Corp'' ''alice'' ''secret'' False (boot 21000)))) = True
   \<and> count_list (new_calls (boot 21000)
        (snd (WiFiEnterprise_begin timed ''Corp'' ''alice'' ''secret'' False (boot 21000)))) Ent_disable = 0
   \<and> (\<exists>k\<le>40. poll_reading timed
          (begin_configure timed ''Corp'' ''alice'' ''secret'' False (boot 21000)) k = WL_CONNECTED)"
    by simp
  from begin_result [of timed "''Corp''" "''alice''" "''secret''" False "boot 21001"] stable v'
  have b: "connected (self (snd (WiFiEnterprise_begin timed ''Corp'' ''alice'' ''secret'' False (boot 21001)))) = False
   \<and> count_list (new_calls (boot 21001)
        (snd (WiFiEnterprise_begin timed ''Corp'' ''alice'' ''secret'' False (boot 21001)))) Ent_disable = 1
   \<and> \<not> (\<exists>k\<le>40. poll_reading timed
          (begin_configure timed ''Corp'' ''alice'' ''secret'' False (boot 21001)) k = WL_CONNECTED)
   \<and> last (calls (snd (WiFiEnterprise_begin timed ''Corp'' ''alice'' ''secret'' False (boot 21001))))
       = Ent_disable"
    by simp
  from v v' a b show ?thesis
    by blast
qed

text \<open>
  C1 as stated fails where the status changes between the read that ends the loop and
  the read of line 46. The scripted driver shows \<^verbatim>\<open>WL_CONNECTED\<close> to the first poll, made
  when no time of the 20000 ms has passed, and \<^verbatim>\<open>WL_DISCONNECTED\<close> from then on: the loop
  ends at once, line 46 reads \<^verbatim>\<open>WL_DISCONNECTED\<close>, and \<open>begin\<close> returns false, leaves
  \<open>connected\<close> false and disables enterprise mode.
\<close>

theorem begin_result_counterexample:
  "new_calls (boot [WL_CONNECTED, WL_DISCONNECTED])
     (snd (WiFiEnterprise_begin scripted ''Corp'' ''alice'' ''secret'' False
        (boot [WL_CONNECTED, WL_DISCONNECTED]))) =
     [Disconnect True, Delay 1000, Mode WIFI_STA, Set_identity ''alice'' 5,
      Set_username ''alice'' 5, Set_password ''secret'' 6, Ent_enable, Begin ''Corp'',
      Status WL_CONNECTED, Status WL_DISCONNECTED, Status WL_DISCONNECTED, Ent_disable]
   \<and> fst (WiFiEnterprise_begin scripted ''Corp'' ''alice'' ''secret'' False
        (boot [WL_CONNECTED, WL_DISCONNECTED])) = False
   \<and> connected (self (snd (WiFiEnterprise_begin scripted ''Corp'' ''alice'' ''secret'' False
        (boot [WL_CONNECTED, WL_DISCONNECTED])))) = False"
  by code_simp

section \<open>The debug flag and the serial text\<close>

lemma behaviour_eq:
  "behaviour w = behaviour w' \<longleftrightarrow>
     connected (self w) = connected (self w') \<and> clock w = clock w' \<and> drv w = drv w'
     \<and> calls w = calls w'"
  by (auto simp: behaviour_def)

lemma behaviour_quiet_steps [simp]:
  "behaviour (debugPrint m w) = behaviour w"
  "behaviour (debugPrint2 m v w) = behaviour w"
  "behaviour (setDebug b w) = behaviour w"
  by (simp_all add: behaviour_def)

lemma behaviour_issue:
  "behaviour w = behaviour w' \<Longrightarrow> behaviour (issue P c w) = behaviour (issue P c w')"
  by (simp add: behaviour_eq clock_issue)

lemma behaviour_delay:
  "behaviour w = behaviour w' \<Longrightarrow> behaviour (delay P ms w) = behaviour (delay P ms w')"
  by (simp add: behaviour_eq clock_delay)

lemma behaviour_wait_round:
  "behaviour w = behaviour w' \<Longrightarrow> behaviour (wait_round P w) = behaviour (wait_round P w')"
  by (simp add: behaviour_eq clock_wait_round)

lemma behaviour_set_connected:
  "behaviour w = behaviour w' \<Longrightarrow>
     behaviour (w\<lparr>self := (self w)\<lparr>connected := b\<rparr>\<rparr>) = behaviour (w'\<lparr>self := (self w')\<lparr>connected := b\<rparr>\<rparr>)"
  by (simp add: behaviour_eq)

lemma behaviour_begin_wait:
  "behaviour w = behaviour w' \<Longrightarrow>
     behaviour (begin_wait P startTime w) = behaviour (begin_wait P startTime w')"
proof (induction P startTime w arbitrary: w' rule: begin_wait.induct)
  case (1 P startTime w)
  from "1.prems" have d: "drv w' = drv w" and k: "clock w' = clock w"
    by (simp_all add: behaviour_eq)
  have r: "behaviour (snd (WiFi_status P w)) = behaviour (snd (WiFi_status P w'))"
    using "1.prems" by (simp add: behaviour_eq clock_issue)
  show ?case
  proof (cases "fst (WiFi_status P w) \<noteq> WL_CONNECTED
                 \<and> millis (snd (WiFi_status P w)) - startTime < timeout")
    case True
    then have ne: "status_reg P (drv w) \<noteq> WL_CONNECTED" and lt: "clock w - startTime < timeout"
      by (simp_all add: millis_def clock_issue)
    from ne lt d k have ne': "status_reg P (drv w') \<noteq> WL_CONNECTED"
      and lt': "clock w' - startTime < timeout"
      by simp_all
    have "behaviour (begin_wait P startTime (wait_round P (snd (WiFi_status P w)))) =
        behaviour (begin_wait P startTime (wait_round P (snd (WiFi_status P w'))))"
      by (rule "1.IH" [OF refl True behaviour_wait_round [OF r]])
    then show ?thesis
      by (simp only: begin_wait_continue [OF ne lt] begin_wait_continue [OF ne' lt'])
  next
    case False
    then have stop: "status_reg P (drv w) = WL_CONNECTED \<or> \<not> clock w - startTime < timeout"
      by (simp add: millis_def clock_issue)
    with d k have stop': "status_reg P (drv w') = WL_CONNECTED \<or> \<not> clock w' - startTime < timeout"
      by simp
    from r show ?thesis
      by (simp only: begin_wait_stop [OF stop] begin_wait_stop [OF stop'])
  qed
qed

lemma behaviour_begin_configure:
  "behaviour w = behaviour w' \<Longrightarrow>
     behaviour (begin_configure P ssid username password e w) =
     behaviour (begin_configure P ssid username password e' w')"
  by (simp add: begin_configure_def Let_def behaviour_eq clock_issue clock_delay)

lemma behaviour_begin_report:
  assumes "behaviour w = behaviour w'"
  shows "fst (begin_report P w) = fst (begin_report P w')"
    and "behaviour (snd (begin_report P w)) = behaviour (snd (begin_report P w'))"
  using assms by (simp_all add: begin_report_def Let_def behaviour_eq clock_issue)

lemma behaviour_after_wait:
  assumes "behaviour w = behaviour w'"
  shows "behaviour (after_wait P ssid username password e w) =
     behaviour (after_wait P ssid username password e' w')"
proof -
  note c = behaviour_begin_configure [OF assms, of P ssid username password e e']
  then have "millis (begin_configure P ssid username password e w) =
      millis (begin_configure P ssid username password e' w')"
    by (simp add: behaviour_eq millis_def)
  with behaviour_begin_wait [OF c] show ?thesis
    by (simp add: after_wait_def Let_def)
qed

lemma behaviour_begin:
  assumes "behaviour w = behaviour w'"
  shows "fst (WiFiEnterprise_begin P ssid username password e w) =
         fst (WiFiEnterprise_begin P ssid username password e' w')"
    and "behaviour (snd (WiFiEnterprise_begin P ssid username password e w)) =
         behaviour (snd (WiFiEnterprise_begin P ssid username password e' w'))"
  using behaviour_begin_report [OF behaviour_after_wait [OF assms, of P ssid username password e e'], of P]
  by (simp_all add: begin_after_wait)

lemma behaviour_end:
  "behaviour w = behaviour w' \<Longrightarrow> behaviour (WiFiEnterprise_end P w) = behaviour (WiFiEnterprise_end P w')"
  by (simp add: WiFiEnterprise_end_def Let_def behaviour_eq clock_issue)

lemma quiet_wait_round:
  "\<not> debugEnabled (self w) \<Longrightarrow> serial (wait_round P w) = serial w"
  by (simp add: wait_round_def Let_def)

lemma quiet_begin_wait:
  "\<not> debugEnabled (self w) \<Longrightarrow> serial (begin_wait P startTime w) = serial w"
proof (induction P startTime w rule: begin_wait.induct)
  case (1 P startTime w)
  show ?case
  proof (cases "fst (WiFi_status P w) \<noteq> WL_CONNECTED
                 \<and> millis (snd (WiFi_status P w)) - startTime < timeout")
    case True
    then have ne: "status_reg P (drv w) \<noteq> WL_CONNECTED" and lt: "clock w - startTime < timeout"
      by (simp_all add: millis_def clock_issue)
    have "serial (begin_wait P startTime (wait_round P (snd (WiFi_status P w)))) =
        serial (wait_round P (snd (WiFi_status P w)))"
      using "1.prems" by (intro "1.IH" [OF refl True]) simp
    then show ?thesis
      using "1.prems" by (simp add: begin_wait_continue [OF ne lt] quiet_wait_round)
  next
    case False
    then have stop: "status_reg P (drv w) = WL_CONNECTED \<or> \<not> clock w - startTime < timeout"
      by (simp add: millis_def clock_issue)
    show ?thesis
      by (simp add: begin_wait_stop [OF stop])
  qed
qed

lemma debug_after_wait:
  "debugEnabled (self (after_wait P ssid username password e w)) = e"
  using begin_wait_shape [of P "millis (begin_configure P ssid username password e w)"
      "begin_configure P ssid username password e w"]
  by (auto simp: after_wait_def Let_def begin_configure_simps)

lemma quiet_begin_configure:
  "serial (begin_configure P ssid username password False w) = serial w"
  by (simp add: begin_configure_def Let_def)

lemma quiet_begin_report:
  "\<not> debugEnabled (self w) \<Longrightarrow> serial (snd (begin_report P w)) = serial w"
  by (simp add: begin_report_def Let_def)

lemma quiet_begin:
  "serial (snd (WiFiEnterprise_begin P ssid username password False w)) = serial w"
proof -
  have "serial (after_wait P ssid username password False w) = serial w"
    by (simp add: after_wait_def Let_def quiet_begin_wait begin_configure_simps quiet_begin_configure)
  then show ?thesis
    by (simp add: begin_after_wait quiet_begin_report debug_after_wait)
qed

lemma begin_forgets_setDebug:
  "WiFiEnterprise_begin P ssid username password e (setDebug b w) =
     WiFiEnterprise_begin P ssid username password e w"
proof -
  have h: "setDebug e (setDebug b w) = setDebug e w"
    by (simp add: setDebug_def)
  have "begin_configure P ssid username password e (setDebug b w) =
      begin_configure P ssid username password e w"
    by (simp only: begin_configure_def h)
  then show ?thesis
    by (simp only: WiFiEnterprise_begin_def)
qed

lemma begin_debug_flag:
  "debugEnabled (self (snd (WiFiEnterprise_begin P ssid username password e w))) = e"
  by (simp add: begin_after_wait begin_report_simps debug_after_wait)

lemma serial_wait_round: "length (serial w) \<le> length (serial (wait_round P w))"
  by (simp add: wait_round_def Let_def)

lemma serial_begin_wait: "length (serial w) \<le> length (serial (begin_wait P startTime w))"
proof (induction P startTime w rule: begin_wait.induct)
  case (1 P startTime w)
  show ?case
  proof (cases "fst (WiFi_status P w) \<noteq> WL_CONNECTED
                 \<and> millis (snd (WiFi_status P w)) - startTime < timeout")
    case True
    then have ne: "status_reg P (drv w) \<noteq> WL_CONNECTED" and lt: "clock w - startTime < timeout"
      by (simp_all add: millis_def clock_issue)
    have "length (serial (wait_round P (snd (WiFi_status P w))))
        \<le> length (serial (begin_wait P startTime (wait_round P (snd (WiFi_status P w)))))"
      by (rule "1.IH" [OF refl True])
    moreover have "length (serial w) \<le> length (serial (wait_round P (snd (WiFi_status P w))))"
      using serial_wait_round [of "snd (WiFi_status P w)" P] by simp
    ultimately show ?thesis
      by (simp add: begin_wait_continue [OF ne lt])
  next
    case False
    then have stop: "status_reg P (drv w) = WL_CONNECTED \<or> \<not> clock w - startTime < timeout"
      by (simp add: millis_def clock_issue)
    show ?thesis
      by (simp add: begin_wait_stop [OF stop])
  qed
qed

lemma serial_begin_configure:
  "length (serial (begin_configure P ssid username password True w)) = length (serial w) + 7"
  by (simp add: begin_configure_def Let_def debugPrint_def debugPrint2_def)

lemma serial_begin_report: "length (serial w) \<le> length (serial (snd (begin_report P w)))"
  by (simp add: begin_report_def Let_def debugPrint_def debugPrint2_def)

lemma loud_begin:
  "length (serial w) < length (serial (snd (WiFiEnterprise_begin P ssid username password True w)))"
proof -
  let ?c = "begin_configure P ssid username password True w"
  have "length (serial ?c) \<le> length (serial (after_wait P ssid username password True w))"
    unfolding after_wait_def Let_def by (rule serial_begin_wait)
  also have "\<dots> \<le> length (serial (snd (WiFiEnterprise_begin P ssid username password True w)))"
    unfolding begin_after_wait by (rule serial_begin_report)
  finally show ?thesis
    by (simp add: serial_begin_configure)
qed

lemma serial_end:
  "serial (WiFiEnterprise_end P w) =
     (if debugEnabled (self w)
      then serial w @ [Serial_println ''WiFiEnterprise: Disconnecting...'',
                       Serial_println ''WiFiEnterprise: Disconnected'']
      else serial w)"
  by (simp add: WiFiEnterprise_end_def Let_def debugPrint_def c_str_def)

text \<open>
  C5. Take two runs of \<open>begin\<close> from the same world and on the same platform, with the
  same SSID and credentials, that differ in the flag a preceding \<open>setDebug\<close> stored
  (\<open>b\<close>, \<open>b'\<close>) and in the \<open>enableDebug\<close> argument (\<open>e\<close>, \<open>e'\<close>). They return the same value and
  end with the same \<open>connected\<close> field, the same platform calls, the same driver state
  and the same clock. The same holds for two runs of \<open>end\<close> that differ in the stored
  flag. What the flag decides is the serial text: with the flag off neither operation
  prints anything, with it on both print. Printing takes no time on the model's clock.
\<close>

theorem debug_only_affects_text:
  "fst (WiFiEnterprise_begin P ssid username password e (setDebug b w)) =
     fst (WiFiEnterprise_begin P ssid username password e' (setDebug b' w))
   \<and> behaviour (snd (WiFiEnterprise_begin P ssid username password e (setDebug b w))) =
     behaviour (snd (WiFiEnterprise_begin P ssid username password e' (setDebug b' w)))
   \<and> behaviour (WiFiEnterprise_end P (setDebug b w)) =
     behaviour (WiFiEnterprise_end P (setDebug b' w))
   \<and> serial (snd (WiFiEnterprise_begin P ssid username password False w)) = serial w
   \<and> length (serial w) < length (serial (snd (WiFiEnterprise_begin P ssid username password True w)))
   \<and> serial (WiFiEnterprise_end P (setDebug False w)) = serial w
   \<and> serial (WiFiEnterprise_end P (setDebug True w)) =
       serial w @ [Serial_println ''WiFiEnterprise: Disconnecting...'',
                   Serial_println ''WiFiEnterprise: Disconnected'']"
proof -
  have same: "behaviour (setDebug b w) = behaviour (setDebug b' w)"
    by simp
  note behaviour_begin [OF same, of P ssid username password e e']
  moreover note behaviour_end [OF same, of P]
  moreover note quiet_begin [of P ssid username password w]
  moreover note loud_begin [of w P ssid username password]
  moreover have "serial (WiFiEnterprise_end P (setDebug False w)) = serial w"
    by (simp add: serial_end)
  moreover have "serial (WiFiEnterprise_end P (setDebug True w)) =
       serial w @ [Serial_println ''WiFiEnterprise: Disconnecting...'',
                   Serial_println ''WiFiEnterprise: Disconnected'']"
    by (simp add: serial_end)
  ultimately show ?thesis
    by blast
qed

text \<open>
  C9. The first thing \<open>begin\<close> does is to store its \<open>enableDebug\<close> argument in the debug
  flag, so a \<open>setDebug\<close> made before the call has no effect on it at all: the result and
  the whole world after \<open>begin\<close> are those of the same call without the \<open>setDebug\<close>, and the
  flag after the call is the argument. In particular, after \<open>setDebug(true)\<close> the call
  with three arguments, whose \<open>enableDebug\<close> defaults to false, prints nothing and leaves
  the flag off.
\<close>

theorem begin_overrides_setDebug:
  "WiFiEnterprise_begin P ssid username password e (setDebug b w) =
     WiFiEnterprise_begin P ssid username password e w
   \<and> debugEnabled (self (snd (WiFiEnterprise_begin P ssid username password e w))) = e
   \<and> debugEnabled (self (setDebug True w)) = True
   \<and> serial (snd (WiFiEnterprise_begin_default P ssid username password (setDebug True w))) = serial w
   \<and> debugEnabled (self (snd (WiFiEnterprise_begin_default P ssid username password (setDebug True w))))
       = False"
proof -
  have "serial (snd (WiFiEnterprise_begin_default P ssid username password (setDebug True w))) = serial w"
    using quiet_begin [of P ssid username password "setDebug True w"]
    by (simp add: WiFiEnterprise_begin_default_def)
  moreover have "debugEnabled
      (self (snd (WiFiEnterprise_begin_default P ssid username password (setDebug True w)))) = False"
    by (simp add: WiFiEnterprise_begin_default_def begin_debug_flag)
  moreover have "debugEnabled (self (setDebug True w)) = True"
    by simp
  moreover note begin_forgets_setDebug [of P ssid username password e b w]
  moreover note begin_debug_flag [of P ssid username password e w]
  ultimately show ?thesis
    by blast
qed

text \<open>
  C6. \<open>end\<close> has no failing branch: it returns a world from every world. It leaves
  \<open>connected\<close> false and the debug flag as it was, so a second \<open>end\<close> leaves the wrapper
  object as the first did. Each of the two calls issues the same two operations,
  disable enterprise mode and force-disconnect. The configuration the driver has been
  commanded into is the same after the second call as after the first: enterprise
  mode off and no association.
\<close>

theorem end_idempotent:
  "self (WiFiEnterprise_end P (WiFiEnterprise_end P w)) = self (WiFiEnterprise_end P w)
   \<and> connected (self (WiFiEnterprise_end P w)) = False
   \<and> debugEnabled (self (WiFiEnterprise_end P w)) = debugEnabled (self w)
   \<and> new_calls w (WiFiEnterprise_end P w) = [Ent_disable, Disconnect True]
   \<and> new_calls (WiFiEnterprise_end P w) (WiFiEnterprise_end P (WiFiEnterprise_end P w)) =
       [Ent_disable, Disconnect True]
   \<and> commanded g (calls (WiFiEnterprise_end P (WiFiEnterprise_end P w))) =
       commanded g (calls (WiFiEnterprise_end P w))
   \<and> enterprise (commanded g (calls (WiFiEnterprise_end P w))) = False
   \<and> associating (commanded g (calls (WiFiEnterprise_end P w))) = False"
  by (simp add: end_simps commanded_def)

end
